theory Spec2Isabelle
  imports Complex_Main
begin

section \<open>Python values and failures\<close>

text \<open>
  The module \<^verbatim>\<open>deel/lip/utils.py\<close> is embedded function by function. A Python
  exception is a value of \<open>py_error\<close>, and a function that can raise returns
  \<open>py_error + 'a\<close> with \<open>Inl\<close> for the exception. Python integers are unbounded
  (\<open>int\<close>). The estimator of the Lipschitz constant is computed in exact real
  arithmetic: a float is a real number or one of \<open>inf\<close>, \<open>-inf\<close> and \<open>nan\<close>.
\<close>

datatype py_error =
    ValueError string
  | IndexError
  | AttributeError
  | StopIteration
  | UnpackError nat nat \<comment> \<open>the \<^verbatim>\<open>ValueError\<close> of tuple unpacking: values expected, values got\<close>
  | IncompatibleShapes

datatype fval = Finite real | PosInf | NegInf | NaN

text \<open>
  A number returned by \<^verbatim>\<open>_compute_fans\<close>: a Python integer, a numpy \<^verbatim>\<open>int64\<close> (held as the
  integer it denotes) or a numpy float.
\<close>

datatype 'f number = PyInt int | NpInt64 int | NpFloat 'f

definition py_index :: "'a list \<Rightarrow> int \<Rightarrow> py_error + 'a" where
  \<comment> \<open>\<^verbatim>\<open>xs[i]\<close>: position \<open>i\<close> from the front, or \<open>- i\<close> from the back when \<open>i\<close> is negative.\<close>
  "py_index xs i =
     (if 0 \<le> i \<and> i < int (length xs) then Inr (xs ! nat i)
      else if i < 0 \<and> - int (length xs) \<le> i then Inr (xs ! (length xs - nat (- i)))
      else Inl IndexError)"

definition py_slice_from :: "'a list \<Rightarrow> int \<Rightarrow> 'a list" where
  \<comment> \<open>\<^verbatim>\<open>xs[i:]\<close>: the start is counted from the end when negative, then clamped.\<close>
  "py_slice_from xs i =
     (let n = int (length xs); j = (if i < 0 then max 0 (n + i) else min i n)
      in drop (nat j) xs)"

definition py_slice_upto :: "'a list \<Rightarrow> int \<Rightarrow> 'a list" where
  \<comment> \<open>\<^verbatim>\<open>xs[:i]\<close>: the stop is counted from the end when negative, then clamped.\<close>
  "py_slice_upto xs i =
     (let n = int (length xs); j = (if i < 0 then max 0 (n + i) else min i n)
      in take (nat j) xs)"

definition fits_int64 :: "int \<Rightarrow> bool" where
  "fits_int64 v \<longleftrightarrow> - (2 ^ 63) \<le> v \<and> v < 2 ^ 63"

definition wrap_int64 :: "int \<Rightarrow> int" where
  \<comment> \<open>the \<^verbatim>\<open>int64\<close> that an arithmetic result becomes: numpy wraps around silently\<close>
  "wrap_int64 v = (v + 2 ^ 63) mod 2 ^ 64 - 2 ^ 63"

definition np_prod :: "int list \<Rightarrow> int" where
  \<comment> \<open>\<^verbatim>\<open>np.prod\<close> of a tuple of integers that each fit \<^verbatim>\<open>int64\<close>: numpy makes an \<^verbatim>\<open>int64\<close>
      array of them and multiplies with wrap-around; the product of the empty tuple
      is the float 1.0, held here as 1.\<close>
  "np_prod xs = foldr (\<lambda>x p. wrap_int64 (x * p)) xs 1"

section \<open>The registry of custom objects and the loaders\<close>

text \<open>
  A callable is opaque but for its \<^verbatim>\<open>__name__\<close>, which a function or class has and
  another callable object (a \<^verbatim>\<open>functools.partial\<close>, an instance with \<^verbatim>\<open>__call__\<close>) may not
  have: reading the attribute then raises \<^verbatim>\<open>AttributeError\<close>. Dictionaries are mutable objects that several variables may refer
  to, so they live in a store: a dictionary is reached through its address, and
  \<^verbatim>\<open>copy\<close> allocates a new one. The module-level variable \<^verbatim>\<open>CUSTOM_OBJECTS\<close> is a
  field of the state holding the address of the registry.
\<close>

record 'a callable =
  name :: "string option"
  body :: 'a

type_synonym addr = nat

type_synonym 'a dict = "string \<rightharpoonup> 'a callable"

record 'a state =
  CUSTOM_OBJECTS :: addr
  dicts :: "addr \<Rightarrow> 'a dict"
  fresh :: addr

definition module_init :: "'a state" where
  \<comment> \<open>\<^verbatim>\<open>CUSTOM_OBJECTS = dict()\<close> when the module is imported.\<close>
  "module_init = \<lparr>CUSTOM_OBJECTS = 0, dicts = (\<lambda>_. Map.empty), fresh = 1\<rparr>"

definition registry :: "'a state \<Rightarrow> 'a dict" where
  "registry s = dicts s (CUSTOM_OBJECTS s)"

definition wf_state :: "'a state \<Rightarrow> bool" where
  \<comment> \<open>The registry is an allocated object: no later allocation returns its address.\<close>
  "wf_state s \<longleftrightarrow> CUSTOM_OBJECTS s < fresh s"

definition dict_setitem :: "'a state \<Rightarrow> addr \<Rightarrow> string \<Rightarrow> 'a callable \<Rightarrow> 'a state" where
  \<comment> \<open>\<^verbatim>\<open>d[k] = v\<close>\<close>
  "dict_setitem s d k v = s\<lparr>dicts := (dicts s)(d := (dicts s d)(k \<mapsto> v))\<rparr>"

definition dict_copy :: "'a state \<Rightarrow> addr \<Rightarrow> addr \<times> 'a state" where
  \<comment> \<open>\<^verbatim>\<open>d.copy()\<close>: a new dictionary with the entries of \<open>d\<close>.\<close>
  "dict_copy s d =
     (fresh s, s\<lparr>dicts := (dicts s)(fresh s := dicts s d), fresh := Suc (fresh s)\<rparr>)"

definition dict_update :: "'a state \<Rightarrow> addr \<Rightarrow> addr \<Rightarrow> 'a state" where
  \<comment> \<open>\<^verbatim>\<open>d.update(other)\<close>: every entry of \<open>other\<close> is stored into \<open>d\<close>.\<close>
  "dict_update s d other = s\<lparr>dicts := (dicts s)(d := dicts s d ++ dicts s other)\<rparr>"

definition deel_export ::
  "'a state \<Rightarrow> 'a callable \<Rightarrow> (py_error + 'a callable) \<times> 'a state" where
  \<comment> \<open>The result of the call, and the state after it: when \<^verbatim>\<open>f.__name__\<close> raises,
      nothing has been stored.\<close>
  "deel_export s f =
     (case name f of
        None \<Rightarrow> (Inl AttributeError, s)
      | Some n \<Rightarrow> (Inr f, dict_setitem s (CUSTOM_OBJECTS s) n f))"

text \<open>
  The three loaders. The deserialisers of the framework are parameters: each receives
  the contents of the merged dictionary, and what it returns (a model, or the failure
  it raises) is returned as it is. \<^verbatim>\<open>custom_objects\<close> is \<open>None\<close> or the address of the
  caller's dictionary.
\<close>

definition load_model ::
  "('p \<Rightarrow> 'a dict \<Rightarrow> bool \<Rightarrow> 'm) \<Rightarrow> 'a state \<Rightarrow> 'p \<Rightarrow> addr option \<Rightarrow> bool \<Rightarrow> 'm \<times> 'a state" where
  "load_model keras_load_model s filepath custom_objects compile =
     (let (deel_custom_objects, s1) = dict_copy s (CUSTOM_OBJECTS s);
          s2 = (case custom_objects of
                  None \<Rightarrow> s1
                | Some c \<Rightarrow> dict_update s1 deel_custom_objects c)
      in (keras_load_model filepath (dicts s2 deel_custom_objects) compile, s2))"

definition model_from_json ::
  "(string \<Rightarrow> 'a dict \<Rightarrow> 'm) \<Rightarrow> 'a state \<Rightarrow> string \<Rightarrow> addr option \<Rightarrow> 'm \<times> 'a state" where
  "model_from_json keras_model_from_json s json_string custom_objects =
     (let (deel_custom_objects, s1) = dict_copy s (CUSTOM_OBJECTS s);
          s2 = (case custom_objects of
                  None \<Rightarrow> s1
                | Some c \<Rightarrow> dict_update s1 deel_custom_objects c)
      in (keras_model_from_json json_string (dicts s2 deel_custom_objects), s2))"

definition model_from_yaml ::
  "(string \<Rightarrow> 'a dict \<Rightarrow> 'm) \<Rightarrow> 'a state \<Rightarrow> string \<Rightarrow> addr option \<Rightarrow> 'm \<times> 'a state" where
  "model_from_yaml keras_model_from_yaml s yaml_string custom_objects =
     (let (deel_custom_objects, s1) = dict_copy s (CUSTOM_OBJECTS s);
          s2 = (case custom_objects of
                  None \<Rightarrow> s1
                | Some c \<Rightarrow> dict_update s1 deel_custom_objects c)
      in (keras_model_from_yaml yaml_string (dicts s2 deel_custom_objects), s2))"

text \<open>
  The wording of the specification, to compare the loaders with: the effective mapping
  is a copy of the registry overlaid with the caller's entries, the caller's entry
  winning where both have the name.
\<close>

definition caller_entries :: "'a state \<Rightarrow> addr option \<Rightarrow> 'a dict" where
  "caller_entries s custom_objects =
     (case custom_objects of None \<Rightarrow> Map.empty | Some c \<Rightarrow> dicts s c)"

definition effective_custom_objects :: "'a state \<Rightarrow> addr option \<Rightarrow> 'a dict" where
  "effective_custom_objects s custom_objects =
     (\<lambda>n. case caller_entries s custom_objects n of
            Some v \<Rightarrow> Some v
          | None \<Rightarrow> registry s n)"

definition allocated :: "'a state \<Rightarrow> addr option \<Rightarrow> bool" where
  "allocated s custom_objects \<longleftrightarrow>
     (case custom_objects of None \<Rightarrow> True | Some c \<Rightarrow> c < fresh s)"

text \<open>A run of calls into the module, to state what no sequence of them can do.\<close>

datatype ('a, 'p) call =
    Register "'a callable"
  | LoadModel 'p "addr option" bool
  | ModelFromJson string "addr option"
  | ModelFromYaml string "addr option"

fun step ::
  "('p \<Rightarrow> 'a dict \<Rightarrow> bool \<Rightarrow> 'm) \<Rightarrow> (string \<Rightarrow> 'a dict \<Rightarrow> 'm) \<Rightarrow> (string \<Rightarrow> 'a dict \<Rightarrow> 'm) \<Rightarrow>
   'a state \<Rightarrow> ('a, 'p) call \<Rightarrow> 'a state" where
  "step kl kj ky s (Register f) = snd (deel_export s f)"
| "step kl kj ky s (LoadModel filepath custom_objects compile) =
     snd (load_model kl s filepath custom_objects compile)"
| "step kl kj ky s (ModelFromJson json_string custom_objects) =
     snd (model_from_json kj s json_string custom_objects)"
| "step kl kj ky s (ModelFromYaml yaml_string custom_objects) =
     snd (model_from_yaml ky s yaml_string custom_objects)"

definition run ::
  "('p \<Rightarrow> 'a dict \<Rightarrow> bool \<Rightarrow> 'm) \<Rightarrow> (string \<Rightarrow> 'a dict \<Rightarrow> 'm) \<Rightarrow> (string \<Rightarrow> 'a dict \<Rightarrow> 'm) \<Rightarrow>
   'a state \<Rightarrow> ('a, 'p) call list \<Rightarrow> 'a state" where
  "run kl kj ky s calls = foldl (step kl kj ky) s calls"

section \<open>Fan-in and fan-out of a weight shape\<close>

text \<open>
  \<^verbatim>\<open>_compute_fans(shape, data_format="channels_last")\<close>. The three branches on
  \<^verbatim>\<open>len(shape)\<close> and the two on \<^verbatim>\<open>data_format\<close> are kept in the order of the source;
  the \<^verbatim>\<open>raise ValueError("Invalid data_format: " + data_format)\<close> is the \<open>Inl\<close> branch.
  The shape is a tuple of Python integers. \<^verbatim>\<open>np.prod\<close> returns an \<^verbatim>\<open>int64\<close>, and a Python
  integer times an \<^verbatim>\<open>int64\<close> is an \<^verbatim>\<open>int64\<close> again, with wrap-around. \<^verbatim>\<open>np.sqrt\<close> is the
  square root of numpy in floating point: it is a parameter, from the \<^verbatim>\<open>int64\<close> product
  to the type of floats.
\<close>

definition compute_fans ::
  "(int \<Rightarrow> 'f) \<Rightarrow> int list \<Rightarrow> string \<Rightarrow> py_error + ('f number \<times> 'f number)" where
  "compute_fans np_sqrt shape data_format =
     (if length shape = 2 then
        (case py_index shape 0 of
           Inl e \<Rightarrow> Inl e
         | Inr fan_in \<Rightarrow>
             (case py_index shape 1 of
                Inl e \<Rightarrow> Inl e
              | Inr fan_out \<Rightarrow> Inr (PyInt fan_in, PyInt fan_out)))
      else if length shape \<in> {3, 4, 5} then
        (if data_format = ''channels_first'' then
           (let receptive_field_size = np_prod (py_slice_from shape 2) in
            case py_index shape 1 of
              Inl e \<Rightarrow> Inl e
            | Inr c_in \<Rightarrow>
                (case py_index shape 0 of
                   Inl e \<Rightarrow> Inl e
                 | Inr c_out \<Rightarrow>
                     Inr (NpInt64 (wrap_int64 (c_in * receptive_field_size)),
                          NpInt64 (wrap_int64 (c_out * receptive_field_size)))))
         else if data_format = ''channels_last'' then
           (let receptive_field_size = np_prod (py_slice_upto shape (- 2)) in
            case py_index shape (- 2) of
              Inl e \<Rightarrow> Inl e
            | Inr c_in \<Rightarrow>
                (case py_index shape (- 1) of
                   Inl e \<Rightarrow> Inl e
                 | Inr c_out \<Rightarrow>
                     Inr (NpInt64 (wrap_int64 (c_in * receptive_field_size)),
                          NpInt64 (wrap_int64 (c_out * receptive_field_size)))))
         else Inl (ValueError (''Invalid data_format: '' @ data_format)))
      else
        Inr (NpFloat (np_sqrt (np_prod shape)), NpFloat (np_sqrt (np_prod shape))))"

section \<open>The empirical Lipschitz constant\<close>

text \<open>
  An array is its shape and its elements in row-major order, so that the slice \<open>i\<close>
  along the first (batch) axis is a block of consecutive elements. A scalar has the
  empty shape and one element. The backend operations \<^verbatim>\<open>K.square\<close>, \<^verbatim>\<open>K.sum\<close>, \<^verbatim>\<open>K.max\<close>,
  \<^verbatim>\<open>K.sqrt\<close> and the arithmetic on arrays are those of the framework, written out over
  the reals.
\<close>

record 'a tensor =
  shape_of :: "nat list"
  elems :: "'a list"

definition wf_tensor :: "'a tensor \<Rightarrow> bool" where
  "wf_tensor t \<longleftrightarrow> length (elems t) = prod_list (shape_of t)"

definition batch_size :: "'a tensor \<Rightarrow> nat" where
  "batch_size t = (case shape_of t of [] \<Rightarrow> 1 | n # _ \<Rightarrow> n)"

definition sample_size :: "'a tensor \<Rightarrow> nat" where
  \<comment> \<open>the number of elements over all axes but the first\<close>
  "sample_size t = prod_list (tl (shape_of t))"

definition sample :: "'a tensor \<Rightarrow> nat \<Rightarrow> 'a list" where
  "sample t i = take (sample_size t) (drop (i * sample_size t) (elems t))"

definition elementwise :: "('a \<Rightarrow> 'b \<Rightarrow> 'c) \<Rightarrow> 'a tensor \<Rightarrow> 'b tensor \<Rightarrow> py_error + 'c tensor" where
  \<comment> \<open>A binary operation on two arrays of one shape. For operands of different shapes
      the framework broadcasts or raises; the model raises.\<close>
  "elementwise f a b =
     (if shape_of a = shape_of b
      then Inr \<lparr>shape_of = shape_of a, elems = map (\<lambda>(u, v). f u v) (zip (elems a) (elems b))\<rparr>
      else Inl IncompatibleShapes)"

definition tensor_add :: "real tensor \<Rightarrow> real tensor \<Rightarrow> py_error + real tensor" where
  "tensor_add = elementwise (+)"

definition tensor_sub :: "real tensor \<Rightarrow> real tensor \<Rightarrow> py_error + real tensor" where
  "tensor_sub = elementwise (-)"

definition float_div :: "real \<Rightarrow> real \<Rightarrow> fval" where
  \<comment> \<open>Float division does not raise: by zero it gives \<open>inf\<close>, \<open>-inf\<close> or \<open>nan\<close>.\<close>
  "float_div a b =
     (if b \<noteq> 0 then Finite (a / b)
      else if 0 < a then PosInf else if a < 0 then NegInf else NaN)"

definition tensor_div :: "real tensor \<Rightarrow> real tensor \<Rightarrow> py_error + fval tensor" where
  "tensor_div = elementwise float_div"

definition K_square :: "real tensor \<Rightarrow> real tensor" where
  "K_square t = \<lparr>shape_of = shape_of t, elems = map (\<lambda>v. v * v) (elems t)\<rparr>"

definition K_sum_from_axis_1 :: "real tensor \<Rightarrow> real tensor" where
  \<comment> \<open>\<^verbatim>\<open>K.sum(t, axis=range(1, len(t.shape)))\<close>: one sum for each slice along the first axis;
      with no axis to reduce (rank 1) every slice is a single element. The function is
      called on batches; an array without a batch axis is treated as a single slice.\<close>
  "K_sum_from_axis_1 t =
     \<lparr>shape_of = take 1 (shape_of t),
      elems = map (\<lambda>i. sum_list (sample t i)) [0..<batch_size t]\<rparr>"

fun float_max :: "fval \<Rightarrow> fval \<Rightarrow> fval" where
  "float_max NaN _ = NaN"
| "float_max _ NaN = NaN"
| "float_max PosInf _ = PosInf"
| "float_max _ PosInf = PosInf"
| "float_max NegInf v = v"
| "float_max v NegInf = v"
| "float_max (Finite a) (Finite b) = Finite (max a b)"

definition K_max :: "fval tensor \<Rightarrow> fval" where
  \<comment> \<open>\<^verbatim>\<open>K.max\<close> over all elements; \<open>-inf\<close> for an array without elements.\<close>
  "K_max t = foldl float_max NegInf (elems t)"

fun K_sqrt :: "fval \<Rightarrow> fval" where
  \<comment> \<open>\<^verbatim>\<open>K.sqrt\<close> raises its argument to zero before taking the root.\<close>
  "K_sqrt (Finite r) = Finite (sqrt (max r 0))"
| "K_sqrt PosInf = PosInf"
| "K_sqrt NegInf = Finite 0"
| "K_sqrt NaN = NaN"

text \<open>
  What the function does besides returning: the forward passes of the model, in order,
  and the line it prints. The model is its \<^verbatim>\<open>predict\<close> function; \<^verbatim>\<open>K.random_uniform\<close> is a
  parameter standing for the values the framework draws.
\<close>

datatype event = Predict "real tensor" | Print fval

definition evaluate_lip_const ::
  "(nat list \<Rightarrow> real \<Rightarrow> real \<Rightarrow> 's \<Rightarrow> real tensor) \<Rightarrow> (real tensor \<Rightarrow> real tensor) \<Rightarrow>
   real tensor \<Rightarrow> real \<Rightarrow> 's \<Rightarrow> event list \<times> (py_error + fval)" where
  "evaluate_lip_const random_uniform predict x eps seed =
     (let y_pred = predict x in
      case tensor_add x (random_uniform (shape_of x) (eps * 0.25) eps seed) of
        Inl e \<Rightarrow> ([Predict x], Inl e)
      | Inr x_var \<Rightarrow>
          (let y_pred_var = predict x_var;
               passes = [Predict x, Predict x_var] in
           case tensor_sub x x_var of
             Inl e \<Rightarrow> (passes, Inl e)
           | Inr dx \<Rightarrow>
               (case tensor_sub y_pred y_pred_var of
                  Inl e \<Rightarrow> (passes, Inl e)
                | Inr dfx \<Rightarrow>
                    (let ndx = K_sum_from_axis_1 (K_square dx);
                         ndfx = K_sum_from_axis_1 (K_square dfx) in
                     case tensor_div ndfx ndx of
                       Inl e \<Rightarrow> (passes, Inl e)
                     | Inr ratio \<Rightarrow>
                         (let lip_cst = K_sqrt (K_max ratio)
                          in (passes @ [Print lip_cst], Inr lip_cst))))))"

text \<open>
  A generator is the sequence of batches it has still to yield; \<^verbatim>\<open>send(None)\<close> takes the
  next one. A batch is a tuple of arrays, and \<^verbatim>\<open>x, y, _ = ...\<close> needs exactly three.
\<close>

type_synonym generator = "real tensor list list"

definition generator_send :: "generator \<Rightarrow> (py_error + real tensor list) \<times> generator" where
  "generator_send g = (case g of [] \<Rightarrow> (Inl StopIteration, []) | b # rest \<Rightarrow> (Inr b, rest))"

definition evaluate_lip_const_gen ::
  "(nat list \<Rightarrow> real \<Rightarrow> real \<Rightarrow> 's \<Rightarrow> real tensor) \<Rightarrow> (real tensor \<Rightarrow> real tensor) \<Rightarrow>
   generator \<Rightarrow> real \<Rightarrow> 's \<Rightarrow> generator \<times> event list \<times> (py_error + fval)" where
  "evaluate_lip_const_gen random_uniform predict generator eps seed =
     (case generator_send generator of
        (Inl e, g) \<Rightarrow> (g, [], Inl e)
      | (Inr batch, g) \<Rightarrow>
          (case batch of
             [x, y, _] \<Rightarrow> (g, evaluate_lip_const random_uniform predict x eps seed)
           | _ \<Rightarrow> (g, [], Inl (UnpackError 3 (length batch)))))"

text \<open>The squared Euclidean distance of two slices, for stating results.\<close>

definition sqdist :: "real list \<Rightarrow> real list \<Rightarrow> real" where
  "sqdist a b = (\<Sum>(u, v)\<leftarrow>zip a b. (u - v)\<^sup>2)"

section \<open>Properties of the fan computation\<close>

lemma wrap_int64_fits: "fits_int64 v \<Longrightarrow> wrap_int64 v = v"
  by (simp add: fits_int64_def wrap_int64_def)

lemma wrap_int64_cong: "a mod 2 ^ 64 = b mod 2 ^ 64 \<Longrightarrow> wrap_int64 a = wrap_int64 b"
  unfolding wrap_int64_def by (metis mod_add_left_eq)

lemma wrap_int64_mod: "wrap_int64 v mod 2 ^ 64 = v mod 2 ^ 64"
  unfolding wrap_int64_def
  by (metis add_diff_cancel_right' mod_diff_left_eq mod_mod_trivial diff_add_cancel mod_add_left_eq)

lemma wrap_int64_mult: "wrap_int64 (x * wrap_int64 p) = wrap_int64 (x * p)"
  by (rule wrap_int64_cong) (metis wrap_int64_mod mod_mult_right_eq)

lemma np_prod_wrap: "np_prod xs = wrap_int64 (prod_list xs)"
proof (induction xs)
  case Nil
  show ?case by (simp add: np_prod_def wrap_int64_def)
next
  case (Cons x xs)
  have "np_prod (x # xs) = wrap_int64 (x * np_prod xs)"
    by (simp add: np_prod_def)
  with Cons show ?case
    by (simp add: wrap_int64_mult)
qed

lemma py_index_nat: "i < length xs \<Longrightarrow> py_index xs (int i) = Inr (xs ! i)"
  by (simp add: py_index_def)

lemma py_index_from_end:
  "0 < k \<Longrightarrow> k \<le> length xs \<Longrightarrow> py_index xs (- int k) = Inr (xs ! (length xs - k))"
  by (simp add: py_index_def)

lemma py_slice_from_nat: "py_slice_from xs (int k) = drop k xs"
  by (simp add: py_slice_from_def min_def)

lemma py_slice_upto_from_end:
  "0 < k \<Longrightarrow> py_slice_upto xs (- int k) = take (length xs - k) xs"
  by (auto simp add: py_slice_upto_def max_def nat_diff_distrib')

text \<open>
  C2, as amended. Let every dimension of the shape fit \<^verbatim>\<open>int64\<close>. For a shape of two
  elements the fans are its two elements. For a shape of three, four or five elements
  they are the \<^verbatim>\<open>int64\<close> wrap-around of the channel counts times the product of the
  spatial dimensions (the receptive-field size): all but the first two dimensions under
  \<^verbatim>\<open>channels_first\<close>, all but the last two under \<^verbatim>\<open>channels_last\<close>. For every other
  length both fans are \<^verbatim>\<open>np.sqrt\<close> of the \<^verbatim>\<open>int64\<close> wrap-around of the product of all
  dimensions. A product that fits \<^verbatim>\<open>int64\<close> is not changed by the wrap-around, so the
  fans are then those of the exact products.
\<close>

theorem compute_fans_values_int64:
  assumes "\<forall>d \<in> set shape. fits_int64 d"
  shows
  "(length shape = 2 \<longrightarrow>
      compute_fans np_sqrt shape data_format = Inr (PyInt (shape ! 0), PyInt (shape ! 1))) \<and>
   (length shape \<in> {3, 4, 5} \<longrightarrow>
      compute_fans np_sqrt shape ''channels_first'' =
        Inr (NpInt64 (wrap_int64 (shape ! 1 * prod_list (drop 2 shape))),
             NpInt64 (wrap_int64 (shape ! 0 * prod_list (drop 2 shape))))) \<and>
   (length shape \<in> {3, 4, 5} \<longrightarrow>
      compute_fans np_sqrt shape ''channels_last'' =
        Inr (NpInt64 (wrap_int64
               (shape ! (length shape - 2) * prod_list (take (length shape - 2) shape))),
             NpInt64 (wrap_int64
               (shape ! (length shape - 1) * prod_list (take (length shape - 2) shape))))) \<and>
   (length shape \<notin> {2, 3, 4, 5} \<longrightarrow>
      compute_fans np_sqrt shape data_format =
        Inr (NpFloat (np_sqrt (wrap_int64 (prod_list shape))),
             NpFloat (np_sqrt (wrap_int64 (prod_list shape))))) \<and>
   (fits_int64 v \<longrightarrow> wrap_int64 v = v)"
proof (intro conjI impI)
  assume "length shape = 2"
  then show "compute_fans np_sqrt shape data_format = Inr (PyInt (shape ! 0), PyInt (shape ! 1))"
    using py_index_nat [of 0 shape] py_index_nat [of 1 shape]
    by (simp add: compute_fans_def)
next
  assume len: "length shape \<in> {3, 4, 5}"
  then have "py_index shape 1 = Inr (shape ! 1)" "py_index shape 0 = Inr (shape ! 0)"
    by (auto simp add: py_index_def)
  moreover have "py_slice_from shape 2 = drop 2 shape"
    using py_slice_from_nat [of shape 2] by simp
  ultimately show "compute_fans np_sqrt shape ''channels_first'' =
      Inr (NpInt64 (wrap_int64 (shape ! 1 * prod_list (drop 2 shape))),
           NpInt64 (wrap_int64 (shape ! 0 * prod_list (drop 2 shape))))"
    using len by (auto simp add: compute_fans_def np_prod_wrap wrap_int64_mult Let_def)
next
  assume len: "length shape \<in> {3, 4, 5}"
  then have "py_index shape (- 2) = Inr (shape ! (length shape - 2))"
    "py_index shape (- 1) = Inr (shape ! (length shape - 1))"
    using py_index_from_end [of 2 shape] py_index_from_end [of 1 shape] by force+
  moreover have "py_slice_upto shape (- 2) = take (length shape - 2) shape"
    using py_slice_upto_from_end [of 2 shape] by simp
  ultimately show "compute_fans np_sqrt shape ''channels_last'' =
      Inr (NpInt64 (wrap_int64
             (shape ! (length shape - 2) * prod_list (take (length shape - 2) shape))),
           NpInt64 (wrap_int64
             (shape ! (length shape - 1) * prod_list (take (length shape - 2) shape))))"
    using len by (auto simp add: compute_fans_def np_prod_wrap wrap_int64_mult Let_def)
next
  assume "length shape \<notin> {2, 3, 4, 5}"
  then show "compute_fans np_sqrt shape data_format =
      Inr (NpFloat (np_sqrt (wrap_int64 (prod_list shape))),
           NpFloat (np_sqrt (wrap_int64 (prod_list shape))))"
    by (simp add: compute_fans_def np_prod_wrap)
next
  assume "fits_int64 v"
  then show "wrap_int64 v = v"
    by (rule wrap_int64_fits)
qed

theorem compute_fans_values_int64_witness:
  "fits_int64 3 \<and> fits_int64 4 \<and> fits_int64 8 \<and> fits_int64 16 \<and>
   compute_fans (sqrt \<circ> real_of_int) [4, 8] ''channels_last'' = Inr (PyInt 4, PyInt 8) \<and>
   compute_fans (sqrt \<circ> real_of_int) [3, 3, 4, 8] ''channels_first'' =
     Inr (NpInt64 96, NpInt64 96) \<and>
   compute_fans (sqrt \<circ> real_of_int) [3, 3, 4, 8] ''channels_last'' =
     Inr (NpInt64 36, NpInt64 72) \<and>
   compute_fans (sqrt \<circ> real_of_int) [16] ''channels_last'' =
     Inr (NpFloat 4, NpFloat 4)"
proof -
  let ?np_sqrt = "sqrt \<circ> real_of_int"
  have s16: "sqrt 16 = 4"
    using real_sqrt_abs [of 4] by simp
  have fits: "fits_int64 4" "fits_int64 8" "fits_int64 3" "fits_int64 16"
    "fits_int64 96" "fits_int64 36" "fits_int64 72"
    by (simp_all add: fits_int64_def)
  have d2: "\<forall>d \<in> set [4, 8 :: int]. fits_int64 d"
    and d4: "\<forall>d \<in> set [3, 3, 4, 8 :: int]. fits_int64 d"
    and d1: "\<forall>d \<in> set [16 :: int]. fits_int64 d"
    using fits by simp_all
  have "compute_fans ?np_sqrt [4, 8] ''channels_last'' = Inr (PyInt 4, PyInt 8)"
    using compute_fans_values_int64 [OF d2, of ?np_sqrt "''channels_last''"] by simp
  moreover have "compute_fans ?np_sqrt [3, 3, 4, 8] ''channels_first'' =
      Inr (NpInt64 96, NpInt64 96)"
    using compute_fans_values_int64 [OF d4, of ?np_sqrt "''channels_last''" 96] fits by simp
  moreover have "compute_fans ?np_sqrt [3, 3, 4, 8] ''channels_last'' =
      Inr (NpInt64 36, NpInt64 72)"
    using compute_fans_values_int64 [OF d4, of ?np_sqrt "''channels_last''" 36]
      compute_fans_values_int64 [OF d4, of ?np_sqrt "''channels_last''" 72] fits by simp
  moreover have "compute_fans ?np_sqrt [16] ''channels_last'' = Inr (NpFloat 4, NpFloat 4)"
    using compute_fans_values_int64 [OF d1, of ?np_sqrt "''channels_last''" 16] fits s16 by simp
  ultimately show ?thesis
    using fits by blast
qed

text \<open>
  C2 as it was stated fails where a product leaves \<^verbatim>\<open>int64\<close>: for the shape
  \<open>(2\<^sup>3\<^sup>2, 2\<^sup>3\<^sup>2, 3, 3)\<close> under \<^verbatim>\<open>channels_last\<close> the receptive-field size \<open>2\<^sup>6\<^sup>4\<close> wraps
  to 0 and both fans are 0, where the stated products are \<open>3 * 2\<^sup>6\<^sup>4\<close>.
\<close>

theorem compute_fans_values_counterexample:
  "compute_fans (sqrt \<circ> real_of_int) [4294967296, 4294967296, 3, 3] ''channels_last'' =
     Inr (NpInt64 0, NpInt64 0) \<and>
   fits_int64 4294967296 \<and> fits_int64 3 \<and>
   3 * prod_list [4294967296, 4294967296 :: int] = 55340232221128654848"
  by (simp add: compute_fans_def py_index_def py_slice_upto_def np_prod_def wrap_int64_def
      fits_int64_def)

text \<open>
  C6. For a shape of three, four or five elements and a \<^verbatim>\<open>data_format\<close> that is neither
  \<^verbatim>\<open>channels_first\<close> nor \<^verbatim>\<open>channels_last\<close>, the function raises \<^verbatim>\<open>ValueError\<close> with the
  message \<^verbatim>\<open>"Invalid data_format: "\<close> followed by the offending value, and returns nothing.
\<close>

theorem compute_fans_invalid_data_format:
  assumes "length shape \<in> {3, 4, 5}"
    and "data_format \<noteq> ''channels_first''"
    and "data_format \<noteq> ''channels_last''"
  shows "compute_fans np_sqrt shape data_format =
           Inl (ValueError (''Invalid data_format: '' @ data_format))"
  using assms by (auto simp add: compute_fans_def)

theorem compute_fans_invalid_data_format_witness:
  "compute_fans (sqrt \<circ> real_of_int) [3, 3, 4, 8] ''invalid-layout'' =
     Inl (ValueError ''Invalid data_format: invalid-layout'')"
  using compute_fans_invalid_data_format
    [of "[3, 3, 4, 8]" "''invalid-layout''" "sqrt \<circ> real_of_int"]
  by simp

text \<open>
  C10. For a shape of two elements the function returns the two elements whatever the
  \<^verbatim>\<open>data_format\<close> string is, also an unrecognised one. Whenever the function raises,
  the shape has three, four or five elements, the layout is unrecognised and the
  exception is the \<^verbatim>\<open>ValueError\<close> above; for every other length the result does not
  depend on \<^verbatim>\<open>data_format\<close>.
\<close>

theorem compute_fans_data_format_only_for_conv:
  "(length shape = 2 \<longrightarrow>
      compute_fans np_sqrt shape data_format = Inr (PyInt (shape ! 0), PyInt (shape ! 1))) \<and>
   (compute_fans np_sqrt shape data_format = Inl e \<longrightarrow>
      length shape \<in> {3, 4, 5} \<and>
      data_format \<noteq> ''channels_first'' \<and> data_format \<noteq> ''channels_last'' \<and>
      e = ValueError (''Invalid data_format: '' @ data_format)) \<and>
   (length shape \<notin> {3, 4, 5} \<longrightarrow>
      compute_fans np_sqrt shape data_format = compute_fans np_sqrt shape other_format)"
proof (intro conjI impI)
  assume "length shape = 2"
  then show "compute_fans np_sqrt shape data_format = Inr (PyInt (shape ! 0), PyInt (shape ! 1))"
    by (simp add: compute_fans_def py_index_def)
next
  assume raised: "compute_fans np_sqrt shape data_format = Inl e"
  have two: "length shape = 2 \<Longrightarrow> \<exists>r. compute_fans np_sqrt shape data_format = Inr r"
    by (simp add: compute_fans_def py_index_def)
  have conv: "length shape \<in> {3, 4, 5} \<Longrightarrow>
      data_format = ''channels_first'' \<or> data_format = ''channels_last'' \<Longrightarrow>
      \<exists>r. compute_fans np_sqrt shape data_format = Inr r"
    by (auto simp add: compute_fans_def py_index_def Let_def)
  have other: "length shape \<noteq> 2 \<Longrightarrow> length shape \<notin> {3, 4, 5} \<Longrightarrow>
      \<exists>r. compute_fans np_sqrt shape data_format = Inr r"
    by (simp add: compute_fans_def)
  from raised two other show len: "length shape \<in> {3, 4, 5}"
    by (cases "length shape = 2") auto
  from raised conv len show "data_format \<noteq> ''channels_first''"
    by auto
  from raised conv len show "data_format \<noteq> ''channels_last''"
    by auto
  with \<open>data_format \<noteq> ''channels_first''\<close> len raised
  show "e = ValueError (''Invalid data_format: '' @ data_format)"
    by (auto simp add: compute_fans_def)
next
  assume "length shape \<notin> {3, 4, 5}"
  then show "compute_fans np_sqrt shape data_format = compute_fans np_sqrt shape other_format"
    by (simp add: compute_fans_def)
qed

theorem compute_fans_data_format_only_for_conv_witness:
  "compute_fans (sqrt \<circ> real_of_int) [4, 8] ''invalid-layout'' = Inr (PyInt 4, PyInt 8) \<and>
   compute_fans (sqrt \<circ> real_of_int) [3, 3, 4, 8] ''invalid-layout'' =
     Inl (ValueError ''Invalid data_format: invalid-layout'') \<and>
   length [3, 3, 4, 8 :: int] \<in> {3, 4, 5} \<and>
   compute_fans (sqrt \<circ> real_of_int) [7] ''invalid-layout'' =
     compute_fans (sqrt \<circ> real_of_int) [7] ''channels_first''"
proof -
  let ?np_sqrt = "sqrt \<circ> real_of_int"
  have raised: "compute_fans ?np_sqrt [3, 3, 4, 8] ''invalid-layout'' =
      Inl (ValueError ''Invalid data_format: invalid-layout'')"
    by (simp add: compute_fans_def)
  have "compute_fans ?np_sqrt [4, 8] ''invalid-layout'' = Inr (PyInt 4, PyInt 8)"
    using compute_fans_data_format_only_for_conv [of "[4, 8]" ?np_sqrt "''invalid-layout''"]
    by simp
  moreover have "length [3, 3, 4, 8 :: int] \<in> {3, 4, 5}"
    using compute_fans_data_format_only_for_conv
      [of "[3, 3, 4, 8]" ?np_sqrt "''invalid-layout''"
        "ValueError ''Invalid data_format: invalid-layout''"]
      raised by blast
  moreover have "compute_fans ?np_sqrt [7] ''invalid-layout'' =
      compute_fans ?np_sqrt [7] ''channels_first''"
    using compute_fans_data_format_only_for_conv
      [of "[7]" ?np_sqrt "''invalid-layout''" _ "''channels_first''"]
    by simp
  ultimately show ?thesis using raised by blast
qed

section \<open>Properties of the registry and the loaders\<close>

lemma merged_dict:
  assumes "wf_state s" and "allocated s custom_objects"
  shows "dicts (case custom_objects of
                  None \<Rightarrow> s\<lparr>dicts := (dicts s)(fresh s := dicts s (CUSTOM_OBJECTS s)), fresh := Suc (fresh s)\<rparr>
                | Some c \<Rightarrow> dict_update
                     (s\<lparr>dicts := (dicts s)(fresh s := dicts s (CUSTOM_OBJECTS s)), fresh := Suc (fresh s)\<rparr>)
                     (fresh s) c) (fresh s)
         = effective_custom_objects s custom_objects"
  using assms
  by (auto simp add: wf_state_def allocated_def dict_update_def
      effective_custom_objects_def caller_entries_def registry_def map_add_def fun_eq_iff
      split: option.splits)

lemma load_model_result:
  assumes "wf_state s" and "allocated s custom_objects"
  shows "fst (load_model K s filepath custom_objects compile) =
         K filepath (effective_custom_objects s custom_objects) compile"
  using merged_dict [OF assms]
  by (simp add: load_model_def dict_copy_def Let_def)

lemma model_from_json_result:
  assumes "wf_state s" and "allocated s custom_objects"
  shows "fst (model_from_json K s json_string custom_objects) =
         K json_string (effective_custom_objects s custom_objects)"
  using merged_dict [OF assms]
  by (simp add: model_from_json_def dict_copy_def Let_def)

lemma model_from_yaml_result:
  assumes "wf_state s" and "allocated s custom_objects"
  shows "fst (model_from_yaml K s yaml_string custom_objects) =
         K yaml_string (effective_custom_objects s custom_objects)"
  using merged_dict [OF assms]
  by (simp add: model_from_yaml_def dict_copy_def Let_def)

lemma load_model_frame:
  assumes "wf_state s"
  shows "registry (snd (load_model K s filepath custom_objects compile)) = registry s"
    and "wf_state (snd (load_model K s filepath custom_objects compile))"
  using assms
  by (auto simp add: load_model_def wf_state_def dict_copy_def dict_update_def registry_def
      Let_def split: option.splits)

lemma model_from_json_frame:
  assumes "wf_state s"
  shows "registry (snd (model_from_json K s json_string custom_objects)) = registry s"
    and "wf_state (snd (model_from_json K s json_string custom_objects))"
  using assms
  by (auto simp add: model_from_json_def wf_state_def dict_copy_def dict_update_def registry_def
      Let_def split: option.splits)

lemma model_from_yaml_frame:
  assumes "wf_state s"
  shows "registry (snd (model_from_yaml K s yaml_string custom_objects)) = registry s"
    and "wf_state (snd (model_from_yaml K s yaml_string custom_objects))"
  using assms
  by (auto simp add: model_from_yaml_def wf_state_def dict_copy_def dict_update_def registry_def
      Let_def split: option.splits)

lemma deel_export_registry:
  "registry (snd (deel_export s f)) =
     (case name f of None \<Rightarrow> registry s | Some n \<Rightarrow> (registry s)(n \<mapsto> f))"
  by (simp add: deel_export_def dict_setitem_def registry_def split: option.splits)

lemma deel_export_wf: "wf_state s \<Longrightarrow> wf_state (snd (deel_export s f))"
  by (simp add: deel_export_def dict_setitem_def wf_state_def split: option.splits)

lemma step_dom:
  assumes "wf_state s"
  shows "dom (registry s) \<subseteq> dom (registry (step kl kj ky s c))"
    and "wf_state (step kl kj ky s c)"
  using assms
  by (cases c; auto simp add: deel_export_registry deel_export_wf load_model_frame
      model_from_json_frame model_from_yaml_frame split: option.splits)+

lemma run_dom:
  "wf_state s \<Longrightarrow> dom (registry s) \<subseteq> dom (registry (run kl kj ky s calls))"
proof (induction calls arbitrary: s)
  case Nil
  then show ?case by (simp add: run_def)
next
  case (Cons c calls)
  have "dom (registry (step kl kj ky s c)) \<subseteq> dom (registry (run kl kj ky (step kl kj ky s c) calls))"
    using Cons.IH [OF step_dom(2) [OF Cons.prems]] .
  with step_dom(1) [OF Cons.prems, of kl kj ky c] show ?case
    by (auto simp add: run_def)
qed

lemma step_loader_keeps:
  assumes "wf_state s" and "\<forall>f. c \<noteq> Register f"
  shows "registry (step kl kj ky s c) = registry s"
  using assms
  by (cases c) (simp_all add: load_model_frame model_from_json_frame model_from_yaml_frame)

lemma run_without_register:
  "wf_state s \<Longrightarrow> \<forall>c \<in> set calls. \<forall>f. c \<noteq> Register f \<Longrightarrow>
   registry (run kl kj ky s calls) = registry s"
proof (induction calls arbitrary: s)
  case Nil
  then show ?case by (simp add: run_def)
next
  case (Cons c calls)
  from Cons.prems have c: "\<forall>f. c \<noteq> Register f" and rest: "\<forall>c \<in> set calls. \<forall>f. c \<noteq> Register f"
    by simp_all
  have "registry (run kl kj ky (step kl kj ky s c) calls) = registry (step kl kj ky s c)"
    using Cons.IH [OF step_dom(2) [OF Cons.prems(1)] rest] .
  also have "\<dots> = registry s"
    using step_loader_keeps [OF Cons.prems(1) c] .
  finally show ?case by (simp add: run_def)
qed

text \<open>
  C3. Each of the three loaders hands the framework deserialiser the registry overlaid
  with the caller's mapping: a name the caller supplies has the caller's value, every
  other name has its registry value. In particular, after \<^verbatim>\<open>deel_export(f)\<close> for an \<open>f\<close>
  named \<open>n\<close>, a loader call whose mapping has no entry for \<open>n\<close> passes \<open>f\<close> under \<open>n\<close>.
\<close>

theorem loaders_pass_registry_overlaid:
  assumes "wf_state s" and "allocated s custom_objects"
  shows
    "fst (load_model kl s filepath custom_objects compile) =
       kl filepath (effective_custom_objects s custom_objects) compile \<and>
     fst (model_from_json kj s json_string custom_objects) =
       kj json_string (effective_custom_objects s custom_objects) \<and>
     fst (model_from_yaml ky s yaml_string custom_objects) =
       ky yaml_string (effective_custom_objects s custom_objects) \<and>
     (caller_entries s custom_objects n = Some v \<longrightarrow>
        effective_custom_objects s custom_objects n = Some v) \<and>
     (caller_entries s custom_objects n = None \<longrightarrow>
        effective_custom_objects s custom_objects n = registry s n) \<and>
     (name f = Some m \<and> caller_entries (snd (deel_export s f)) custom_objects m = None \<longrightarrow>
        fst (load_model kl (snd (deel_export s f)) filepath custom_objects compile) =
          kl filepath (effective_custom_objects (snd (deel_export s f)) custom_objects) compile \<and>
        fst (model_from_json kj (snd (deel_export s f)) json_string custom_objects) =
          kj json_string (effective_custom_objects (snd (deel_export s f)) custom_objects) \<and>
        fst (model_from_yaml ky (snd (deel_export s f)) yaml_string custom_objects) =
          ky yaml_string (effective_custom_objects (snd (deel_export s f)) custom_objects) \<and>
        effective_custom_objects (snd (deel_export s f)) custom_objects m = Some f)"
proof -
  let ?s' = "snd (deel_export s f)"
  have wf': "wf_state ?s'"
    using assms(1) by (rule deel_export_wf)
  have al': "allocated ?s' custom_objects"
    using assms(2)
    by (cases custom_objects; cases "name f")
      (simp_all add: allocated_def deel_export_def dict_setitem_def)
  have here: "effective_custom_objects ?s' custom_objects m = Some f"
    if "name f = Some m \<and> caller_entries ?s' custom_objects m = None"
    using that by (simp add: effective_custom_objects_def deel_export_registry)
  have given: "caller_entries s custom_objects n = Some v \<longrightarrow>
      effective_custom_objects s custom_objects n = Some v"
    by (simp add: effective_custom_objects_def)
  have absent: "caller_entries s custom_objects n = None \<longrightarrow>
      effective_custom_objects s custom_objects n = registry s n"
    by (simp add: effective_custom_objects_def)
  show ?thesis
    using load_model_result [OF assms, of kl filepath compile]
      model_from_json_result [OF assms, of kj json_string]
      model_from_yaml_result [OF assms, of ky yaml_string]
      load_model_result [OF wf' al', of kl filepath compile]
      model_from_json_result [OF wf' al', of kj json_string]
      model_from_yaml_result [OF wf' al', of ky yaml_string]
      given absent here
    by blast
qed

theorem loaders_pass_registry_overlaid_witness:
  "wf_state
     \<lparr>CUSTOM_OBJECTS = 0,
      dicts = (\<lambda>_. Map.empty)
        (0 := [''relu'' \<mapsto> \<lparr>name = Some ''relu'', body = 1 :: nat\<rparr>],
         1 := [''relu'' \<mapsto> \<lparr>name = Some ''relu'', body = 2\<rparr>]),
      fresh = 2\<rparr> \<and>
   fst (load_model (\<lambda>p objs c. (objs ''relu'', objs ''swish''))
     \<lparr>CUSTOM_OBJECTS = 0,
      dicts = (\<lambda>_. Map.empty)
        (0 := [''relu'' \<mapsto> \<lparr>name = Some ''relu'', body = 1 :: nat\<rparr>],
         1 := [''relu'' \<mapsto> \<lparr>name = Some ''relu'', body = 2\<rparr>]),
      fresh = 2\<rparr> ''model.h5'' (Some 1) True) =
     (Some \<lparr>name = Some ''relu'', body = 2\<rparr>, None) \<and>
   fst (load_model (\<lambda>p objs c. (objs ''relu'', objs ''swish''))
     (snd (deel_export
       \<lparr>CUSTOM_OBJECTS = 0,
        dicts = (\<lambda>_. Map.empty)
          (0 := [''relu'' \<mapsto> \<lparr>name = Some ''relu'', body = 1 :: nat\<rparr>],
           1 := [''relu'' \<mapsto> \<lparr>name = Some ''relu'', body = 2\<rparr>]),
        fresh = 2\<rparr> \<lparr>name = Some ''swish'', body = 3\<rparr>)) ''model.h5'' (Some 1) True) =
     (Some \<lparr>name = Some ''relu'', body = 2\<rparr>, Some \<lparr>name = Some ''swish'', body = 3\<rparr>)"
proof -
  let ?s = "\<lparr>CUSTOM_OBJECTS = 0,
      dicts = (\<lambda>_. Map.empty)
        (0 := [''relu'' \<mapsto> \<lparr>name = Some ''relu'', body = 1 :: nat\<rparr>],
         1 := [''relu'' \<mapsto> \<lparr>name = Some ''relu'', body = 2\<rparr>]),
      fresh = 2\<rparr>"
  let ?f = "\<lparr>name = Some ''swish'', body = 3 :: nat\<rparr>"
  let ?k = "\<lambda>(p :: string) (objs :: nat dict) (c :: bool). (objs ''relu'', objs ''swish'')"
  have wf: "wf_state ?s"
    by (simp add: wf_state_def)
  have al: "allocated ?s (Some 1)"
    by (simp add: allocated_def)
  have none: "name ?f = Some ''swish'' \<and>
      caller_entries (snd (deel_export ?s ?f)) (Some 1) ''swish'' = None"
    by (simp add: caller_entries_def deel_export_def dict_setitem_def)
  have eff: "effective_custom_objects ?s (Some 1) ''relu'' = Some \<lparr>name = Some ''relu'', body = 2\<rparr>"
    "effective_custom_objects ?s (Some 1) ''swish'' = None"
    "effective_custom_objects (snd (deel_export ?s ?f)) (Some 1) ''relu'' =
       Some \<lparr>name = Some ''relu'', body = 2\<rparr>"
    by (simp_all add: effective_custom_objects_def caller_entries_def registry_def
        deel_export_def dict_setitem_def)
  note overlaid = loaders_pass_registry_overlaid [OF wf al,
      where kl = ?k and filepath = "''model.h5''" and compile = True
        and kj = "\<lambda>j objs. (objs ''relu'', objs ''swish'')" and json_string = "''{}''"
        and ky = "\<lambda>y objs. (objs ''relu'', objs ''swish'')" and yaml_string = "''x: 1''"
        and n = "''swish''" and v = ?f and f = ?f and m = "''swish''"]
  from overlaid have before:
    "fst (load_model ?k ?s ''model.h5'' (Some 1) True) =
       ?k ''model.h5'' (effective_custom_objects ?s (Some 1)) True"
    by (rule conjunct1)
  from overlaid none have after:
    "fst (load_model ?k (snd (deel_export ?s ?f)) ''model.h5'' (Some 1) True) =
       ?k ''model.h5'' (effective_custom_objects (snd (deel_export ?s ?f)) (Some 1)) True"
    "effective_custom_objects (snd (deel_export ?s ?f)) (Some 1) ''swish'' = Some ?f"
    by blast+
  show ?thesis
    using wf before after eff by simp
qed

text \<open>
  C4. The registry is empty when the module is loaded. Registration stores one entry
  and leaves every other name as it was (and stores nothing when it raises), and each
  loader leaves the registry exactly
  as it found it, whatever mapping the caller passes. Over any sequence of calls into
  the module no registered name disappears, and a sequence without a registration
  does not change the registry at all.
\<close>

theorem registry_only_grows:
  "registry (module_init :: 'a state) = Map.empty \<and>
   registry (snd (deel_export s f)) =
     (case name f of None \<Rightarrow> registry s | Some n \<Rightarrow> (registry s)(n \<mapsto> f)) \<and>
   (wf_state s \<longrightarrow>
      registry (snd (load_model kl s filepath custom_objects compile)) = registry s \<and>
      registry (snd (model_from_json kj s json_string custom_objects)) = registry s \<and>
      registry (snd (model_from_yaml ky s yaml_string custom_objects)) = registry s) \<and>
   (wf_state s \<longrightarrow> dom (registry s) \<subseteq> dom (registry (run kl kj ky s calls))) \<and>
   (wf_state s \<longrightarrow> (\<forall>c \<in> set calls. \<forall>g. c \<noteq> Register g) \<longrightarrow>
      registry (run kl kj ky s calls) = registry s)"
proof (intro conjI impI)
  show "registry (module_init :: 'a state) = Map.empty"
    by (simp add: module_init_def registry_def)
  show "registry (snd (deel_export s f)) =
     (case name f of None \<Rightarrow> registry s | Some n \<Rightarrow> (registry s)(n \<mapsto> f))"
    by (rule deel_export_registry)
next
  assume "wf_state s"
  then show "registry (snd (load_model kl s filepath custom_objects compile)) = registry s"
    by (rule load_model_frame(1))
next
  assume "wf_state s"
  then show "registry (snd (model_from_json kj s json_string custom_objects)) = registry s"
    by (rule model_from_json_frame(1))
next
  assume "wf_state s"
  then show "registry (snd (model_from_yaml ky s yaml_string custom_objects)) = registry s"
    by (rule model_from_yaml_frame(1))
next
  assume "wf_state s"
  then show "dom (registry s) \<subseteq> dom (registry (run kl kj ky s calls))"
    by (rule run_dom)
next
  assume "wf_state s" and "\<forall>c \<in> set calls. \<forall>g. c \<noteq> Register g"
  then show "registry (run kl kj ky s calls) = registry s"
    by (rule run_without_register)
qed

theorem registry_only_grows_witness:
  "wf_state (snd (deel_export module_init \<lparr>name = Some ''relu'', body = 1 :: nat\<rparr>)) \<and>
   registry (snd (load_model (\<lambda>p objs c. objs ''relu'')
     (snd (deel_export module_init \<lparr>name = Some ''relu'', body = 1 :: nat\<rparr>))
     ''model.h5'' (Some 0) True)) ''relu'' = Some \<lparr>name = Some ''relu'', body = 1\<rparr> \<and>
   registry (run (\<lambda>p objs c. objs ''relu'') (\<lambda>j objs. None) (\<lambda>y objs. None)
     (snd (deel_export module_init \<lparr>name = Some ''relu'', body = 1 :: nat\<rparr>))
     [LoadModel ''model.h5'' (Some 0) True, ModelFromYaml ''x: 1'' None]) ''relu'' =
     Some \<lparr>name = Some ''relu'', body = 1\<rparr> \<and>
   ''relu'' \<in> dom (registry (run (\<lambda>p objs c. objs ''relu'') (\<lambda>j objs. None) (\<lambda>y objs. None)
     (snd (deel_export module_init \<lparr>name = Some ''relu'', body = 1 :: nat\<rparr>))
     [Register \<lparr>name = Some ''swish'', body = 2\<rparr>, LoadModel ''model.h5'' None False]))"
proof -
  let ?f = "\<lparr>name = Some ''relu'', body = 1 :: nat\<rparr>"
  let ?s = "snd (deel_export module_init ?f)"
  let ?kl = "\<lambda>(p :: string) (objs :: nat dict) (c :: bool). objs ''relu''"
  let ?kj = "\<lambda>(j :: string) (objs :: nat dict). None :: nat callable option"
  let ?quiet = "[LoadModel ''model.h5'' (Some 0) True, ModelFromYaml ''x: 1'' None]
    :: (nat, string) call list"
  let ?busy = "[Register \<lparr>name = Some ''swish'', body = 2\<rparr>, LoadModel ''model.h5'' None False]
    :: (nat, string) call list"
  have wf: "wf_state ?s"
    by (simp add: wf_state_def deel_export_def dict_setitem_def module_init_def)
  have reg: "registry ?s ''relu'' = Some ?f"
    by (simp add: registry_def deel_export_def dict_setitem_def module_init_def)
  have quiet: "\<forall>c \<in> set ?quiet. \<forall>g. c \<noteq> Register g"
    by simp
  note grows = registry_only_grows [where s = ?s and kl = ?kl and kj = ?kj and ky = ?kj
      and filepath = "''model.h5''" and custom_objects = "Some 0" and compile = True]
  from grows [where calls = ?quiet] wf
  have "registry (snd (load_model ?kl ?s ''model.h5'' (Some 0) True)) = registry ?s"
    by blast
  with reg have loaded: "registry (snd (load_model ?kl ?s ''model.h5'' (Some 0) True)) ''relu'' = Some ?f"
    by simp
  from grows [where calls = ?quiet] wf quiet
  have "registry (run ?kl ?kj ?kj ?s ?quiet) = registry ?s"
    by blast
  with reg have ran: "registry (run ?kl ?kj ?kj ?s ?quiet) ''relu'' = Some ?f"
    by simp
  from grows [where calls = ?busy] wf
  have "dom (registry ?s) \<subseteq> dom (registry (run ?kl ?kj ?kj ?s ?busy))"
    by blast
  moreover have "''relu'' \<in> dom (registry ?s)"
    using reg by blast
  ultimately have kept: "''relu'' \<in> dom (registry (run ?kl ?kj ?kj ?s ?busy))"
    by blast
  from wf loaded ran kept show ?thesis
    by blast
qed

text \<open>
  C7, as amended. For every callable \<open>f\<close> that has a \<^verbatim>\<open>__name__\<close>, \<^verbatim>\<open>deel_export(f)\<close> does
  not raise, returns \<open>f\<close> itself and leaves \<open>f\<close> in the registry under that name.
  Registering \<open>g\<close> with the same \<^verbatim>\<open>__name__\<close> afterwards replaces the entry, so that the
  name then yields \<open>g\<close>.
\<close>

theorem deel_export_named_stores_and_returns:
  "name f = Some n \<longrightarrow>
     fst (deel_export s f) = Inr f \<and>
     registry (snd (deel_export s f)) n = Some f \<and>
     (name g = Some n \<longrightarrow>
        fst (deel_export (snd (deel_export s f)) g) = Inr g \<and>
        registry (snd (deel_export (snd (deel_export s f)) g)) n = Some g)"
  by (simp add: deel_export_def dict_setitem_def registry_def)

theorem deel_export_named_stores_and_returns_witness:
  "fst (deel_export module_init \<lparr>name = Some ''relu'', body = 1 :: nat\<rparr>) =
     Inr \<lparr>name = Some ''relu'', body = 1\<rparr> \<and>
   registry (snd (deel_export module_init \<lparr>name = Some ''relu'', body = 1 :: nat\<rparr>)) ''relu'' =
     Some \<lparr>name = Some ''relu'', body = 1\<rparr> \<and>
   fst (deel_export (snd (deel_export module_init \<lparr>name = Some ''relu'', body = 1 :: nat\<rparr>))
     \<lparr>name = Some ''relu'', body = 2\<rparr>) = Inr \<lparr>name = Some ''relu'', body = 2\<rparr> \<and>
   registry (snd (deel_export (snd (deel_export module_init \<lparr>name = Some ''relu'', body = 1 :: nat\<rparr>))
     \<lparr>name = Some ''relu'', body = 2\<rparr>)) ''relu'' = Some \<lparr>name = Some ''relu'', body = 2\<rparr>"
  using deel_export_named_stores_and_returns
    [of "\<lparr>name = Some ''relu'', body = 1 :: nat\<rparr>" "''relu''" module_init
      "\<lparr>name = Some ''relu'', body = 2\<rparr>"]
  by simp

text \<open>
  C7 as it was stated, for every callable, fails on a callable without \<^verbatim>\<open>__name__\<close>:
  the call raises \<^verbatim>\<open>AttributeError\<close> and the state, with the registry, stays as it was.
\<close>

theorem deel_export_counterexample:
  "deel_export (module_init :: nat state) \<lparr>name = None, body = 0\<rparr> =
     (Inl AttributeError, module_init)"
  by (simp add: deel_export_def)

section \<open>Properties of the estimator\<close>

lemma elementwise_result:
  "elementwise f a b = Inr c \<Longrightarrow> shape_of c = shape_of a \<and> shape_of b = shape_of a \<and>
     elems c = map (\<lambda>(u, v). f u v) (zip (elems a) (elems b))"
  by (auto simp add: elementwise_def split: if_splits)

lemma sample_elementwise:
  assumes "elementwise f a b = Inr c"
  shows "sample c i = map (\<lambda>(u, v). f u v) (zip (sample a i) (sample b i))"
  using elementwise_result [OF assms]
  by (simp add: sample_def sample_size_def take_map drop_map take_zip drop_zip)

lemma sample_K_square: "sample (K_square t) i = map (\<lambda>v. v * v) (sample t i)"
  by (simp add: sample_def sample_size_def K_square_def take_map drop_map)

lemma batch_size_take1: "take 1 (shape_of a) = take 1 (shape_of b) \<Longrightarrow> batch_size a = batch_size b"
  by (cases "shape_of a"; cases "shape_of b") (simp_all add: batch_size_def)

lemma sum_squares_of_differences:
  "sum_list (map (\<lambda>v. v * v) (map (\<lambda>(u, v). u - v) zs)) = (\<Sum>(u, v)\<leftarrow>zs. (u - v)\<^sup>2)"
  for zs :: "(real \<times> real) list"
  by (induction zs) (auto simp add: power2_eq_square)

lemma sqdist_sum:
  "sum_list (map (\<lambda>v. v * v) (map (\<lambda>(u, v). u - v) (zip a b))) = sqdist a b"
  unfolding sqdist_def by (rule sum_squares_of_differences)

lemma K_sum_sub_elems:
  assumes "tensor_sub a b = Inr d"
  shows "elems (K_sum_from_axis_1 (K_square d)) = map (\<lambda>i. sqdist (sample a i) (sample b i)) [0..<batch_size a]"
    and "shape_of (K_sum_from_axis_1 (K_square d)) = take 1 (shape_of a)"
proof -
  from assms have e: "elementwise (-) a b = Inr d" by (simp add: tensor_sub_def)
  have bs: "batch_size (K_square d) = batch_size a"
    using elementwise_result [OF e] by (simp add: batch_size_def K_square_def)
  show "elems (K_sum_from_axis_1 (K_square d)) = map (\<lambda>i. sqdist (sample a i) (sample b i)) [0..<batch_size a]"
    by (simp add: K_sum_from_axis_1_def bs sample_K_square sample_elementwise [OF e] sqdist_sum
        del: map_map)
  show "shape_of (K_sum_from_axis_1 (K_square d)) = take 1 (shape_of a)"
    using elementwise_result [OF e] by (simp add: K_sum_from_axis_1_def K_square_def)
qed

lemma foldl_float_max:
  "foldl float_max (Finite a) (map Finite rs) = Finite (Max (set (a # rs)))"
proof (induction rs arbitrary: a)
  case Nil
  then show ?case by simp
next
  case (Cons r rs)
  have "Max (insert a (insert r (set rs))) = Max (insert (max a r) (set rs))"
    by (cases "rs = []") (simp_all add: max.assoc)
  with Cons show ?case by simp
qed

lemma K_max_finite:
  "rs \<noteq> [] \<Longrightarrow> K_max \<lparr>shape_of = shp, elems = map Finite rs\<rparr> = Finite (Max (set rs))"
  by (cases rs) (simp_all add: K_max_def foldl_float_max)

lemma sqdist_nonneg: "0 \<le> sqdist a b"
  unfolding sqdist_def by (rule sum_list_nonneg) auto

lemma tensor_sub_same_shape:
  "shape_of a = shape_of b \<Longrightarrow> \<exists>d. tensor_sub a b = Inr d"
  by (simp add: tensor_sub_def elementwise_def)

lemma tensor_div_elems:
  assumes num: "elems num = map f [0..<n]" and den: "elems den = map g [0..<n]"
    and shp: "shape_of num = shape_of den"
  shows "tensor_div num den =
    Inr \<lparr>shape_of = shape_of num, elems = map (\<lambda>i. float_div (f i) (g i)) [0..<n]\<rparr>"
proof -
  have "zip (elems num) (elems den) = map (\<lambda>i. (f i, g i)) [0..<n]"
    by (simp add: num den zip_map_map zip_same_conv_map)
  then show ?thesis
    using shp by (simp add: tensor_div_def elementwise_def comp_def)
qed

lemma evaluate_lip_const_unfold:
  fixes x :: "real tensor"
  assumes x_var: "tensor_add x (random_uniform (shape_of x) (eps * 0.25) eps seed) = Inr x_var"
    and out_shape: "shape_of (predict x_var) = shape_of (predict x)"
    and out_batch: "take 1 (shape_of (predict x)) = take 1 (shape_of x)"
  shows "evaluate_lip_const random_uniform predict x eps seed =
     ([Predict x, Predict x_var,
       Print (K_sqrt (K_max \<lparr>shape_of = take 1 (shape_of x),
         elems = map (\<lambda>i. float_div (sqdist (sample (predict x) i) (sample (predict x_var) i))
                                  (sqdist (sample x i) (sample x_var i))) [0..<batch_size x]\<rparr>))],
      Inr (K_sqrt (K_max \<lparr>shape_of = take 1 (shape_of x),
         elems = map (\<lambda>i. float_div (sqdist (sample (predict x) i) (sample (predict x_var) i))
                                  (sqdist (sample x i) (sample x_var i))) [0..<batch_size x]\<rparr>)))"
proof -
  let ?n = "batch_size x"
  let ?den = "\<lambda>i. sqdist (sample x i) (sample x_var i)"
  let ?num = "\<lambda>i. sqdist (sample (predict x) i) (sample (predict x_var) i)"
  from x_var have xv: "shape_of x_var = shape_of x"
    using elementwise_result [of "(+)" x _ x_var] by (simp add: tensor_add_def)
  obtain dx where dx: "tensor_sub x x_var = Inr dx"
    using tensor_sub_same_shape [of x x_var] xv by auto
  obtain dfx where dfx: "tensor_sub (predict x) (predict x_var) = Inr dfx"
    using tensor_sub_same_shape [of "predict x" "predict x_var"] out_shape by auto
  have n: "batch_size (predict x) = ?n"
    using out_batch by (rule batch_size_take1)
  have ndx: "elems (K_sum_from_axis_1 (K_square dx)) = map ?den [0..<?n]"
    "shape_of (K_sum_from_axis_1 (K_square dx)) = take 1 (shape_of x)"
    using K_sum_sub_elems [OF dx] by simp_all
  have ndfx: "elems (K_sum_from_axis_1 (K_square dfx)) = map ?num [0..<?n]"
    "shape_of (K_sum_from_axis_1 (K_square dfx)) = take 1 (shape_of x)"
    using K_sum_sub_elems [OF dfx] n out_batch by simp_all
  have ratio: "tensor_div (K_sum_from_axis_1 (K_square dfx)) (K_sum_from_axis_1 (K_square dx)) =
      Inr \<lparr>shape_of = take 1 (shape_of x), elems = map (\<lambda>i. float_div (?num i) (?den i)) [0..<?n]\<rparr>"
    using tensor_div_elems [OF ndfx(1) ndx(1)] ndfx(2) ndx(2) by simp
  show ?thesis
    unfolding evaluate_lip_const_def Let_def x_var sum.case dx dfx ratio by simp
qed

lemma K_sqrt_K_max_finite:
  assumes nonempty: "0 < n" and nonzero: "\<forall>i<n. g i \<noteq> 0"
    and pos: "\<forall>i<n. 0 \<le> f i / g i"
  shows "K_sqrt (K_max \<lparr>shape_of = shp, elems = map (\<lambda>i. float_div (f i) (g i)) [0..<n]\<rparr>) =
     Finite (sqrt (Max (set (map (\<lambda>i. f i / g i) [0..<n]))))"
proof -
  let ?ratios = "map (\<lambda>i. f i / g i) [0..<n]"
  have eq: "map (\<lambda>i. float_div (f i) (g i)) [0..<n] = map Finite ?ratios"
    using nonzero by (simp add: float_div_def)
  have ne: "?ratios \<noteq> []"
    using nonempty by simp
  have mx: "K_max \<lparr>shape_of = shp, elems = map (\<lambda>i. float_div (f i) (g i)) [0..<n]\<rparr> =
      Finite (Max (set ?ratios))"
    unfolding eq using ne by (rule K_max_finite)
  have "f 0 / g 0 \<in> set ?ratios"
    using nonempty by (simp add: image_iff) (metis atLeastLessThan_iff le0)
  then have "f 0 / g 0 \<le> Max (set ?ratios)"
    by (intro Max_ge) simp_all
  moreover have "0 \<le> f 0 / g 0"
    using pos nonempty by simp
  ultimately have "0 \<le> Max (set ?ratios)"
    by linarith
  then have "max (Max (set ?ratios)) 0 = Max (set ?ratios)"
    by (rule max_absorb1)
  then show ?thesis
    unfolding mx K_sqrt.simps by (simp only:)
qed

text \<open>
  C5. When the first batch of the generator is a triple \<open>(x, y, sample_weight)\<close>,
  \<^verbatim>\<open>evaluate_lip_const_gen\<close> takes that one batch from the generator and does and returns
  what \<^verbatim>\<open>evaluate_lip_const\<close> does on \<open>x\<close> with the same model, \<open>eps\<close> and seed: neither
  \<open>y\<close> nor \<open>sample_weight\<close> occurs in the result.
\<close>

theorem evaluate_lip_const_gen_delegates:
  "evaluate_lip_const_gen random_uniform predict ([x, y, sample_weight] # rest) eps seed =
     (rest, evaluate_lip_const random_uniform predict x eps seed) \<and>
   evaluate_lip_const_gen random_uniform predict ([x, y', sample_weight'] # rest) eps seed =
     evaluate_lip_const_gen random_uniform predict ([x, y, sample_weight] # rest) eps seed"
  by (simp add: evaluate_lip_const_gen_def generator_send_def)

text \<open>
  C8. When the first batch of the generator has fewer than two elements, the unpacking
  into three names fails: \<^verbatim>\<open>evaluate_lip_const_gen\<close> raises the unpacking error, having
  taken the batch from the generator and without any forward pass of the model.
\<close>

theorem evaluate_lip_const_gen_short_batch:
  assumes "length batch < 2"
  shows "evaluate_lip_const_gen random_uniform predict (batch # rest) eps seed =
     (rest, [], Inl (UnpackError 3 (length batch)))"
  using assms
  by (auto simp add: evaluate_lip_const_gen_def generator_send_def split: list.splits)

theorem evaluate_lip_const_gen_short_batch_witness:
  "evaluate_lip_const_gen (\<lambda>shp lo hi (seed :: int option). \<lparr>shape_of = shp, elems = replicate (prod_list shp) lo\<rparr>)
     (\<lambda>t. t) [[\<lparr>shape_of = [1], elems = [1]\<rparr>], []] 1 None =
     ([[]], [], Inl (UnpackError 3 1))"
  using evaluate_lip_const_gen_short_batch
    [of "[\<lparr>shape_of = [1], elems = [1]\<rparr>]"
      "\<lambda>shp lo hi (seed :: int option). \<lparr>shape_of = shp, elems = replicate (prod_list shp) lo\<rparr>"
      "\<lambda>t. t" "[[]]" 1 None]
  by simp

lemma prod_shape: "prod_list (shape_of t) = batch_size t * sample_size t"
  by (cases "shape_of t") (simp_all add: batch_size_def sample_size_def)

lemma sample_length:
  assumes "wf_tensor t" and "i < batch_size t"
  shows "length (sample t i) = sample_size t"
proof -
  have "Suc i * sample_size t \<le> batch_size t * sample_size t"
    using assms(2) by (intro mult_le_mono1) simp
  then have "sample_size t \<le> length (elems t) - i * sample_size t"
    using assms(1) by (simp add: wf_tensor_def prod_shape)
  then show ?thesis
    by (simp add: sample_def)
qed

lemma sample_subset: "set (sample t i) \<subseteq> set (elems t)"
  unfolding sample_def
  by (meson set_take_subset set_drop_subset subset_trans)

lemma sum_list_positive:
  fixes vs :: "real list"
  assumes "vs \<noteq> []" and "\<forall>v \<in> set vs. 0 < v"
  shows "0 < sum_list vs"
  using assms
proof (induction vs)
  case Nil
  then show ?case by simp
next
  case (Cons v vs)
  then show ?case
    by (cases "vs = []") (auto intro: add_pos_pos)
qed


lemma K_sum_positive:
  fixes d :: "real tensor"
  assumes wf: "wf_tensor d" and m: "0 < sample_size d"
    and nz: "\<forall>v \<in> set (elems d). v \<noteq> 0"
  shows "length (elems (K_sum_from_axis_1 (K_square d))) = batch_size d"
    and "\<forall>i<batch_size d. 0 < elems (K_sum_from_axis_1 (K_square d)) ! i"
proof -
  have n: "batch_size (K_square d) = batch_size d"
    by (simp add: batch_size_def K_square_def)
  show "length (elems (K_sum_from_axis_1 (K_square d))) = batch_size d"
    by (simp add: K_sum_from_axis_1_def n)
  show "\<forall>i<batch_size d. 0 < elems (K_sum_from_axis_1 (K_square d)) ! i"
  proof (intro allI impI)
    fix i assume i: "i < batch_size d"
    have "length (sample d i) = sample_size d"
      using wf i by (rule sample_length)
    then have ne: "map (\<lambda>v. v * v) (sample d i) \<noteq> []"
      using m by auto
    have "\<forall>v \<in> set (sample d i). v \<noteq> 0"
      using nz sample_subset [of d i] by blast
    then have "\<forall>w \<in> set (map (\<lambda>v. v * v) (sample d i)). 0 < w"
      by (auto simp add: zero_less_mult_iff neq_iff)
    with ne have "0 < sum_list (map (\<lambda>v. v * v) (sample d i))"
      by (rule sum_list_positive)
    then show "0 < elems (K_sum_from_axis_1 (K_square d)) ! i"
      using i by (simp add: K_sum_from_axis_1_def n sample_K_square)
  qed
qed

text \<open>
  C9. In exact arithmetic, let \<open>eps\<close> be positive, let every slice of \<open>x\<close> along the batch
  axis have at least one element, and let the drawn array have the shape of \<open>x\<close> and
  its elements in \<open>[0.25 * eps, eps)\<close>. Then every element of \<open>x_var - x\<close> lies in
  \<open>[0.25 * eps, eps)\<close> and is positive, every element of \<open>ndx\<close> is positive, and for a
  model whose outputs have matching shapes and a batch that is not empty
  \<^verbatim>\<open>evaluate_lip_const\<close> returns a finite number.
\<close>

theorem perturbation_keeps_denominator_positive:
  fixes x :: "real tensor"
    and random_uniform :: "nat list \<Rightarrow> real \<Rightarrow> real \<Rightarrow> 's \<Rightarrow> real tensor"
    and eps :: real and seed :: 's
  defines "noise \<equiv> random_uniform (shape_of x) (eps * 0.25) eps seed"
  assumes eps: "0 < eps"
    and wf: "wf_tensor x"
    and per_sample: "0 < sample_size x"
    and noise_shape: "shape_of noise = shape_of x"
    and noise_wf: "wf_tensor noise"
    and noise_range: "\<forall>v \<in> set (elems noise). eps * 0.25 \<le> v \<and> v < eps"
  shows "\<exists>x_var dx.
     tensor_add x noise = Inr x_var \<and> tensor_sub x x_var = Inr dx \<and>
     length (elems x_var) = length (elems x) \<and>
     (\<forall>k<length (elems x).
        eps * 0.25 \<le> elems x_var ! k - elems x ! k \<and>
        elems x_var ! k - elems x ! k < eps \<and>
        0 < elems x_var ! k - elems x ! k) \<and>
     length (elems (K_sum_from_axis_1 (K_square dx))) = batch_size x \<and>
     (\<forall>i<batch_size x. 0 < elems (K_sum_from_axis_1 (K_square dx)) ! i) \<and>
     (shape_of (predict x_var) = shape_of (predict x) \<and>
      take 1 (shape_of (predict x)) = take 1 (shape_of x) \<and> 0 < batch_size x \<longrightarrow>
        (\<exists>v. snd (evaluate_lip_const random_uniform predict x eps seed) = Inr (Finite v)))"
proof -
  let ?x_var = "\<lparr>shape_of = shape_of x,
    elems = map (\<lambda>(u, v). u + v) (zip (elems x) (elems noise))\<rparr>"
  let ?dx = "\<lparr>shape_of = shape_of x,
    elems = map (\<lambda>(u, v). u - v) (zip (elems x) (elems ?x_var))\<rparr>"
  have len: "length (elems noise) = length (elems x)"
    using wf noise_wf noise_shape by (simp add: wf_tensor_def)
  have add: "tensor_add x noise = Inr ?x_var"
    using noise_shape by (simp add: tensor_add_def elementwise_def)
  have sub: "tensor_sub x ?x_var = Inr ?dx"
    by (simp add: tensor_sub_def elementwise_def)
  have offset: "elems ?x_var ! k - elems x ! k = elems noise ! k" if "k < length (elems x)" for k
    using that len by simp
  have in_range: "eps * 0.25 \<le> elems noise ! k \<and> elems noise ! k < eps"
    if "k < length (elems x)" for k
    using that len noise_range by (metis nth_mem)
  have quarter: "0 < eps * 0.25"
    using eps by simp
  have offsets: "\<forall>k<length (elems x).
        eps * 0.25 \<le> elems ?x_var ! k - elems x ! k \<and>
        elems ?x_var ! k - elems x ! k < eps \<and>
        0 < elems ?x_var ! k - elems x ! k"
  proof (intro allI impI)
    fix k assume k: "k < length (elems x)"
    from in_range [OF k] quarter have "0 < elems noise ! k"
      by linarith
    with in_range [OF k] show "eps * 0.25 \<le> elems ?x_var ! k - elems x ! k \<and>
        elems ?x_var ! k - elems x ! k < eps \<and>
        0 < elems ?x_var ! k - elems x ! k"
      unfolding offset [OF k] by simp
  qed
  have dx_wf: "wf_tensor ?dx"
    using wf len by (simp add: wf_tensor_def)
  have dx_nz: "\<forall>v \<in> set (elems ?dx). v \<noteq> 0"
  proof
    fix v assume "v \<in> set (elems ?dx)"
    then obtain k where k: "k < length (elems ?dx)" and v: "v = elems ?dx ! k"
      by (metis in_set_conv_nth)
    from k len have kx: "k < length (elems x)"
      by simp
    from v kx len have "v = elems x ! k - elems ?x_var ! k"
      by simp
    with offsets kx show "v \<noteq> 0"
      by force
  qed
  have dx_m: "0 < sample_size ?dx"
    using per_sample by (simp add: sample_size_def)
  have dx_n: "batch_size ?dx = batch_size x"
    by (simp add: batch_size_def)
  note ndx = K_sum_positive [OF dx_wf dx_m dx_nz, unfolded dx_n]
  have finite: "\<exists>v. snd (evaluate_lip_const random_uniform predict x eps seed) = Inr (Finite v)"
    if shapes: "shape_of (predict ?x_var) = shape_of (predict x) \<and>
      take 1 (shape_of (predict x)) = take 1 (shape_of x) \<and> 0 < batch_size x"
  proof -
    let ?den = "\<lambda>i. sqdist (sample x i) (sample ?x_var i)"
    let ?num = "\<lambda>i. sqdist (sample (predict x) i) (sample (predict ?x_var) i)"
    have "elems (K_sum_from_axis_1 (K_square ?dx)) = map ?den [0..<batch_size x]"
      using K_sum_sub_elems(1) [OF sub] .
    with ndx(2) have den: "\<forall>i<batch_size x. ?den i \<noteq> 0"
      by auto
    have pos: "\<forall>i<batch_size x. 0 \<le> ?num i / ?den i"
      by (simp add: sqdist_nonneg)
    have "snd (evaluate_lip_const random_uniform predict x eps seed) =
        Inr (K_sqrt (K_max \<lparr>shape_of = take 1 (shape_of x),
          elems = map (\<lambda>i. float_div (?num i) (?den i)) [0..<batch_size x]\<rparr>))"
      using evaluate_lip_const_unfold [where random_uniform = random_uniform and x = x
          and eps = eps and seed = seed and x_var = ?x_var and predict = predict]
        add shapes unfolding noise_def by simp
    also have "\<dots> = Inr (Finite (sqrt (Max (set (map (\<lambda>i. ?num i / ?den i) [0..<batch_size x])))))"
      using shapes den pos K_sqrt_K_max_finite [of "batch_size x" ?den ?num "take 1 (shape_of x)"]
      by simp
    finally show ?thesis
      by blast
  qed
  show ?thesis
  proof (rule exI [of _ ?x_var], rule exI [of _ ?dx], intro conjI)
    show "tensor_add x noise = Inr ?x_var" by (rule add)
    show "tensor_sub x ?x_var = Inr ?dx" by (rule sub)
    show "length (elems ?x_var) = length (elems x)" using len by simp
    show "\<forall>k<length (elems x).
        eps * 0.25 \<le> elems ?x_var ! k - elems x ! k \<and>
        elems ?x_var ! k - elems x ! k < eps \<and>
        0 < elems ?x_var ! k - elems x ! k" by (rule offsets)
    show "length (elems (K_sum_from_axis_1 (K_square ?dx))) = batch_size x" by (rule ndx(1))
    show "\<forall>i<batch_size x. 0 < elems (K_sum_from_axis_1 (K_square ?dx)) ! i" by (rule ndx(2))
    show "shape_of (predict ?x_var) = shape_of (predict x) \<and>
      take 1 (shape_of (predict x)) = take 1 (shape_of x) \<and> 0 < batch_size x \<longrightarrow>
        (\<exists>v. snd (evaluate_lip_const random_uniform predict x eps seed) = Inr (Finite v))"
      using finite by blast
  qed
qed


theorem perturbation_keeps_denominator_positive_witness:
  "tensor_add \<lparr>shape_of = [2, 2], elems = [1, 2, 3, 4]\<rparr>
     \<lparr>shape_of = [2, 2], elems = replicate (prod_list [2, 2]) ((1 * 0.25 + 1) / 2)\<rparr> =
     Inr \<lparr>shape_of = [2, 2], elems = [13 / 8, 21 / 8, 29 / 8, 37 / 8]\<rparr> \<and>
   0 < elems (K_sum_from_axis_1 (K_square
         \<lparr>shape_of = [2, 2], elems = [- (5 / 8), - (5 / 8), - (5 / 8), - (5 / 8)]\<rparr>)) ! 0 \<and>
   0 < elems (K_sum_from_axis_1 (K_square
         \<lparr>shape_of = [2, 2], elems = [- (5 / 8), - (5 / 8), - (5 / 8), - (5 / 8)]\<rparr>)) ! 1 \<and>
   (\<exists>v. snd (evaluate_lip_const
      (\<lambda>shp lo hi (seed :: int option).
         \<lparr>shape_of = shp, elems = replicate (prod_list shp) ((lo + hi) / 2)\<rparr>)
      (\<lambda>t. \<lparr>shape_of = shape_of t, elems = map (\<lambda>v. 2 * v) (elems t)\<rparr>)
      \<lparr>shape_of = [2, 2], elems = [1, 2, 3, 4]\<rparr> 1 None) = Inr (Finite v))"
proof -
  let ?rnd = "\<lambda>shp lo hi (seed :: int option).
        \<lparr>shape_of = shp, elems = replicate (prod_list shp) ((lo + hi) / 2 :: real)\<rparr>"
  let ?predict = "\<lambda>t :: real tensor. \<lparr>shape_of = shape_of t, elems = map (\<lambda>v. 2 * v) (elems t)\<rparr>"
  let ?x = "\<lparr>shape_of = [2, 2], elems = [1, 2, 3, 4 :: real]\<rparr>"
  let ?x_var = "\<lparr>shape_of = [2, 2], elems = [13 / 8, 21 / 8, 29 / 8, 37 / 8 :: real]\<rparr>"
  let ?dx = "\<lparr>shape_of = [2, 2], elems = [- (5 / 8), - (5 / 8), - (5 / 8), - (5 / 8 :: real)]\<rparr>"
  let ?noise = "?rnd (shape_of ?x) (1 * 0.25) 1 None"
  have eps: "0 < (1 :: real)"
    by simp
  have wf: "wf_tensor ?x"
    by (simp add: wf_tensor_def)
  have per_sample: "0 < sample_size ?x"
    by (simp add: sample_size_def)
  have noise_shape: "shape_of ?noise = shape_of ?x"
    by simp
  have noise_wf: "wf_tensor ?noise"
    by (simp add: wf_tensor_def)
  have noise_range: "\<forall>v \<in> set (elems ?noise). 1 * 0.25 \<le> v \<and> v < 1"
    by simp
  have add: "tensor_add ?x ?noise = Inr ?x_var"
    by (simp add: tensor_add_def elementwise_def numeral_eq_Suc)
  have sub: "tensor_sub ?x ?x_var = Inr ?dx"
    by (simp add: tensor_sub_def elementwise_def)
  have n: "batch_size ?x = 2"
    by (simp add: batch_size_def)
  from perturbation_keeps_denominator_positive [where random_uniform = ?rnd and x = ?x
      and eps = 1 and seed = None and predict = ?predict,
      OF eps wf per_sample noise_shape noise_wf noise_range]
  obtain x_var dx where
    "tensor_add ?x ?noise = Inr x_var" and "tensor_sub ?x x_var = Inr dx" and
    positive: "\<forall>i<batch_size ?x. 0 < elems (K_sum_from_axis_1 (K_square dx)) ! i" and
    finite: "shape_of (?predict x_var) = shape_of (?predict ?x) \<and>
      take 1 (shape_of (?predict ?x)) = take 1 (shape_of ?x) \<and> 0 < batch_size ?x \<longrightarrow>
      (\<exists>v. snd (evaluate_lip_const ?rnd ?predict ?x 1 None) = Inr (Finite v))"
    by blast
  with add sub have same: "x_var = ?x_var" "dx = ?dx"
    by simp_all
  from positive have "0 < elems (K_sum_from_axis_1 (K_square ?dx)) ! 0"
    "0 < elems (K_sum_from_axis_1 (K_square ?dx)) ! 1"
    unfolding same n by simp_all
  moreover from finite have "\<exists>v. snd (evaluate_lip_const ?rnd ?predict ?x 1 None) = Inr (Finite v)"
    unfolding same n by simp
  moreover note add
  ultimately show ?thesis
    by simp
qed

end
